theory Spec2Isabelle
  imports Main
begin

section \<open>Values held by the key-value store\<close>

text \<open>
  The store of \<^verbatim>\<open>db/redis_client.py\<close> accepts any Python object as a value. The values
  that matter here are the ones \<^verbatim>\<open>json\<close> knows how to write: \<^verbatim>\<open>None\<close>, booleans,
  integers, strings, lists, tuples and dictionaries with string keys. A dictionary is an
  association list in insertion order, with distinct keys. Floats are left out.
\<close>

datatype pyval =
    PNone
  | PBool bool
  | PInt int
  | PStr string
  | PList "pyval list"
  | PTuple "pyval list"
  | PDict "(string \<times> pyval) list"

text \<open>Python's truth value of an object, as used by \<^verbatim>\<open>x or default\<close> and \<^verbatim>\<open>not x\<close>.\<close>

fun truthy :: "pyval \<Rightarrow> bool" where
  "truthy PNone = False"
| "truthy (PBool b) = b"
| "truthy (PInt n) = (n \<noteq> 0)"
| "truthy (PStr s) = (s \<noteq> [])"
| "truthy (PList xs) = (xs \<noteq> [])"
| "truthy (PTuple xs) = (xs \<noteq> [])"
| "truthy (PDict kvs) = (kvs \<noteq> [])"

definition py_or :: "pyval \<Rightarrow> pyval \<Rightarrow> pyval" where
  "py_or v d = (if truthy v then v else d)"

text \<open>
  \<^verbatim>\<open>json.loads(json.dumps(v, default=str))\<close>: what comes back from a file after \<^verbatim>\<open>v\<close>
  was written to it. JSON has one sequence type, so a tuple is read back as a list;
  everything else in \<^typ>\<open>pyval\<close> is read back as it was written.
\<close>

fun json_roundtrip :: "pyval \<Rightarrow> pyval" where
  "json_roundtrip PNone = PNone"
| "json_roundtrip (PBool b) = PBool b"
| "json_roundtrip (PInt n) = PInt n"
| "json_roundtrip (PStr s) = PStr s"
| "json_roundtrip (PList xs) = PList (map json_roundtrip xs)"
| "json_roundtrip (PTuple xs) = PList (map json_roundtrip xs)"
| "json_roundtrip (PDict kvs) = PDict (map (\<lambda>(k, v). (k, json_roundtrip v)) kvs)"


subsection \<open>The built-in \<^verbatim>\<open>int()\<close>\<close>

definition is_space :: "char \<Rightarrow> bool" where
  "is_space c = (c \<in> set [CHR '' '', CHR 0x09, CHR 0x0A, CHR 0x0B, CHR 0x0C, CHR 0x0D,
                            CHR 0x1C, CHR 0x1D, CHR 0x1E, CHR 0x1F])"

definition strip :: "string \<Rightarrow> string" where
  "strip s = rev (dropWhile is_space (rev (dropWhile is_space s)))"

definition is_digit :: "char \<Rightarrow> bool" where
  "is_digit c = (c \<in> set ''0123456789'')"

definition digit_val :: "char \<Rightarrow> int" where
  "digit_val c = int (of_char c) - 48"

text \<open>
  Decimal digits with single underscores between them; \<open>prev\<close> says that the character
  before was a digit.
\<close>

fun int_digits :: "bool \<Rightarrow> int \<Rightarrow> string \<Rightarrow> int option" where
  "int_digits prev acc [] = (if prev then Some acc else None)"
| "int_digits prev acc (c # cs) =
     (if is_digit c then int_digits True (acc * 10 + digit_val c) cs
      else if c = CHR ''_'' \<and> prev \<and> cs \<noteq> [] \<and> is_digit (hd cs) then int_digits False acc cs
      else None)"

definition int_of_str :: "string \<Rightarrow> int option" where
  "int_of_str s =
     (case strip s of
        [] \<Rightarrow> None
      | c # cs \<Rightarrow>
          if c = CHR ''-'' then map_option uminus (int_digits False 0 cs)
          else if c = CHR ''+'' then int_digits False 0 cs
          else int_digits False 0 (c # cs))"

text \<open>\<^verbatim>\<open>int(v)\<close>; \<open>None\<close> stands for the \<^verbatim>\<open>TypeError\<close> or \<^verbatim>\<open>ValueError\<close> it raises.\<close>

fun py_int :: "pyval \<Rightarrow> int option" where
  "py_int (PInt n) = Some n"
| "py_int (PBool b) = Some (if b then 1 else 0)"
| "py_int (PStr s) = int_of_str s"
| "py_int PNone = None"
| "py_int (PList xs) = None"
| "py_int (PTuple xs) = None"
| "py_int (PDict kvs) = None"

section \<open>Wall-clock time\<close>

text \<open>
  A naive \<^verbatim>\<open>datetime\<close> is the number of microseconds since 0001-01-01 00:00:00, the
  first instant \<^verbatim>\<open>datetime\<close> can represent. The functions below are those of the
  standard library that the program calls on \<^verbatim>\<open>datetime.now()\<close>.
\<close>

type_synonym datetime = int

definition us_per_second :: int where
  "us_per_second = 1000000"

definition us_per_day :: int where
  "us_per_day = 86400 * us_per_second"

definition toordinal :: "datetime \<Rightarrow> int" where
  "toordinal t = t div us_per_day + 1"

definition weekday :: "datetime \<Rightarrow> int" where
  "weekday t = (toordinal t + 6) mod 7"

definition minus_days :: "datetime \<Rightarrow> int \<Rightarrow> datetime" where
  "minus_days t d = t - d * us_per_day"

definition plus_seconds :: "datetime \<Rightarrow> int \<Rightarrow> datetime" where
  "plus_seconds t s = t + s * us_per_second"

definition days_before_year :: "int \<Rightarrow> int" where
  "days_before_year year = (let y = year - 1 in y * 365 + y div 4 - y div 100 + y div 400)"

definition days_in_month :: "int list" where
  "days_in_month = [-1, 31, 28, 31, 30, 31, 30, 31, 31, 30, 31, 30, 31]"

definition days_before_month :: "int list" where
  "days_before_month = [-1, 0, 31, 59, 90, 120, 151, 181, 212, 243, 273, 304, 334]"

text \<open>The library's \<^verbatim>\<open>_ord2ymd\<close>: year, month and day of a proleptic Gregorian ordinal.\<close>

definition ord2ymd :: "int \<Rightarrow> int \<times> int \<times> int" where
  "ord2ymd ordinal =
     (let n = ordinal - 1;
          n400 = n div 146097; na = n mod 146097;
          n100 = na div 36524; nb = na mod 36524;
          n4 = nb div 1461; nc = nb mod 1461;
          n1 = nc div 365; nd = nc mod 365;
          year = n400 * 400 + 1 + n100 * 100 + n4 * 4 + n1
      in if n1 = 4 \<or> n100 = 4 then (year - 1, 12, 31)
         else
           let leapyear = (n1 = 3 \<and> (n4 \<noteq> 24 \<or> n100 = 3));
               month = (nd + 50) div 32;
               preceding = days_before_month ! nat month + (if month > 2 \<and> leapyear then 1 else 0)
           in if preceding > nd
              then let month' = month - 1;
                       preceding' = preceding
                         - (days_in_month ! nat month' + (if month' = 2 \<and> leapyear then 1 else 0))
                   in (year, month', nd - preceding' + 1)
              else (year, month, nd - preceding + 1))"

definition year_of :: "datetime \<Rightarrow> int" where
  "year_of t = fst (ord2ymd (toordinal t))"

definition month_of :: "datetime \<Rightarrow> int" where
  "month_of t = fst (snd (ord2ymd (toordinal t)))"

definition day_of :: "datetime \<Rightarrow> int" where
  "day_of t = snd (snd (ord2ymd (toordinal t)))"

definition hour_of :: "datetime \<Rightarrow> int" where
  "hour_of t = (t mod us_per_day) div (3600 * us_per_second)"

text \<open>
  The fields \<^verbatim>\<open>strftime\<close> reads from the time tuple: the day of the year counted from 0
  and the day of the week counted from Sunday.
\<close>

definition tm_yday :: "datetime \<Rightarrow> int" where
  "tm_yday t = toordinal t - days_before_year (year_of t) - 1"

definition tm_wday :: "datetime \<Rightarrow> int" where
  "tm_wday t = (weekday t + 1) mod 7"

definition digit_chr :: "int \<Rightarrow> char" where
  "digit_chr d = ''0123456789'' ! nat d"

definition pad2 :: "int \<Rightarrow> string" where
  "pad2 n = [digit_chr (n div 10 mod 10), digit_chr (n mod 10)]"

definition pad4 :: "int \<Rightarrow> string" where
  "pad4 n = [digit_chr (n div 1000 mod 10), digit_chr (n div 100 mod 10),
             digit_chr (n div 10 mod 10), digit_chr (n mod 10)]"

text \<open>
  The directives of \<^verbatim>\<open>strftime\<close> that the program uses. \<^verbatim>\<open>%U\<close> is the week of the year
  with Sunday as the first day of the week; the days before the first Sunday are week 0.
\<close>

definition fmt_Y :: "datetime \<Rightarrow> string" where
  "fmt_Y t = pad4 (year_of t)"

definition fmt_m :: "datetime \<Rightarrow> string" where
  "fmt_m t = pad2 (month_of t)"

definition fmt_d :: "datetime \<Rightarrow> string" where
  "fmt_d t = pad2 (day_of t)"

definition fmt_H :: "datetime \<Rightarrow> string" where
  "fmt_H t = pad2 (hour_of t)"

definition week_U :: "datetime \<Rightarrow> int" where
  "week_U t = (tm_yday t + 7 - tm_wday t) div 7"

definition fmt_U :: "datetime \<Rightarrow> string" where
  "fmt_U t = pad2 (week_U t)"


section \<open>The local file store\<close>

text \<open>
  \<^verbatim>\<open>db/redis_client.py\<close> keeps one file \<^verbatim>\<open><key>.json\<close> per key in the fallback
  directory, holding the document \<^verbatim>\<open>{value, created_at, expires_at}\<close>. The directory
  is a map from key to document. Keys are plain file names, as all the keys the program
  builds are, and reading and writing a file of the directory succeeds. Each function
  reads the clock once, as \<open>now\<close>.
\<close>

record entry =
  entry_value :: pyval
  created_at :: datetime
  expires_at :: "datetime option"

type_synonym files = "string \<rightharpoonup> entry"

text \<open>\<^verbatim>\<open>_set_local\<close>; \<^verbatim>\<open>if expire\<close> is false for \<^verbatim>\<open>None\<close> and for 0.\<close>

definition set_local :: "files \<Rightarrow> string \<Rightarrow> pyval \<Rightarrow> int option \<Rightarrow> datetime \<Rightarrow> bool \<times> files" where
  "set_local fs key v expire now =
     (let data = \<lparr>entry_value = json_roundtrip v,
                  created_at = now,
                  expires_at = (case expire of
                                  None \<Rightarrow> None
                                | Some e \<Rightarrow> if e \<noteq> 0 then Some (plus_seconds now e) else None)\<rparr>
      in (True, fs(key \<mapsto> data)))"

text \<open>\<^verbatim>\<open>_delete_local\<close>\<close>

definition delete_local :: "files \<Rightarrow> string \<Rightarrow> bool \<times> files" where
  "delete_local fs key = (True, fs(key := None))"

text \<open>\<^verbatim>\<open>_get_local\<close>: an entry past its expiry is deleted by the read that finds it.\<close>

definition get_local :: "files \<Rightarrow> string \<Rightarrow> datetime \<Rightarrow> pyval \<times> files" where
  "get_local fs key now =
     (case fs key of
        None \<Rightarrow> (PNone, fs)
      | Some data \<Rightarrow>
          (case expires_at data of
             Some expires \<Rightarrow>
               if now > expires then (PNone, snd (delete_local fs key))
               else (entry_value data, fs)
           | None \<Rightarrow> (entry_value data, fs)))"

text \<open>\<^verbatim>\<open>_exists_local\<close>\<close>

definition exists_local :: "files \<Rightarrow> string \<Rightarrow> bool" where
  "exists_local fs key = (fs key \<noteq> None)"

text \<open>
  \<^verbatim>\<open>_increment_local\<close>: the new value is written with no \<^verbatim>\<open>expire\<close> argument. When
  \<^verbatim>\<open>int()\<close> raises, the handler returns 0 and nothing is written.
\<close>

definition increment_local :: "files \<Rightarrow> string \<Rightarrow> int \<Rightarrow> datetime \<Rightarrow> int \<times> files" where
  "increment_local fs key amount now =
     (let (current_value, fs1) = get_local fs key now
      in case py_int (py_or current_value (PInt 0)) of
           None \<Rightarrow> (0, fs1)
         | Some n \<Rightarrow>
             let new_value = n + amount
             in (new_value, snd (set_local fs1 key (PInt new_value) None now)))"

text \<open>\<^verbatim>\<open>hash_data[field] = value\<close> on a dictionary.\<close>

fun dict_set :: "(string \<times> pyval) list \<Rightarrow> string \<Rightarrow> pyval \<Rightarrow> (string \<times> pyval) list" where
  "dict_set [] field v = [(field, v)]"
| "dict_set ((k, w) # kvs) field v =
     (if k = field then (k, v) # kvs else (k, w) # dict_set kvs field v)"

text \<open>
  \<^verbatim>\<open>_set_hash_local\<close>: item assignment with a string index raises on anything but a
  dictionary, and the handler returns \<^verbatim>\<open>False\<close>.
\<close>

definition set_hash_local :: "files \<Rightarrow> string \<Rightarrow> string \<Rightarrow> pyval \<Rightarrow> datetime \<Rightarrow> bool \<times> files" where
  "set_hash_local fs key field v now =
     (let (stored, fs1) = get_local fs key now
      in case py_or stored (PDict []) of
           PDict kvs \<Rightarrow> set_local fs1 key (PDict (dict_set kvs field v)) None now
         | _ \<Rightarrow> (False, fs1))"

text \<open>\<^verbatim>\<open>_get_hash_local\<close>: \<^verbatim>\<open>.get\<close> raises on anything but a dictionary.\<close>

definition get_hash_local :: "files \<Rightarrow> string \<Rightarrow> string \<Rightarrow> datetime \<Rightarrow> pyval \<times> files" where
  "get_hash_local fs key field now =
     (let (stored, fs1) = get_local fs key now
      in case py_or stored (PDict []) of
           PDict kvs \<Rightarrow> (case map_of kvs field of None \<Rightarrow> (PNone, fs1) | Some v \<Rightarrow> (v, fs1))
         | _ \<Rightarrow> (PNone, fs1))"

text \<open>\<^verbatim>\<open>_get_all_hash_local\<close>\<close>

definition get_all_hash_local :: "files \<Rightarrow> string \<Rightarrow> datetime \<Rightarrow> pyval \<times> files" where
  "get_all_hash_local fs key now =
     (let (stored, fs1) = get_local fs key now in (py_or stored (PDict []), fs1))"

section \<open>The data client\<close>

text \<open>
  \<^verbatim>\<open>AureliusDataClient\<close>: \<open>use_redis\<close> is set by a successful \<^verbatim>\<open>connect\<close>,
  \<open>redis_client\<close> says that the attribute holds a client object, \<open>local\<close> is the
  fallback directory. The primary store is outside the program: each operation is given
  what the primary does when it is called, a reply or an exception. \<^verbatim>\<open>keys\<close> and
  \<^verbatim>\<open>get_all_hash\<close>, whose handlers return an empty result as that of \<^verbatim>\<open>exists\<close>
  returns \<^verbatim>\<open>False\<close>, are left out.
\<close>

record data_client =
  use_redis :: bool
  redis_client :: bool
  local :: files

datatype 'a primary = Raises | Replies 'a





text \<open>\<^verbatim>\<open>delete\<close>: the reply is the number of keys the primary removed.\<close>

definition delete_kv :: "data_client \<Rightarrow> string \<Rightarrow> int primary \<Rightarrow> bool \<times> data_client" where
  "delete_kv c key reply =
     (if use_redis c \<and> redis_client c then
        (case reply of
           Replies n \<Rightarrow> (n \<noteq> 0, c)
         | Raises \<Rightarrow>
             let (ok, fs) = delete_local (local c) key in (ok, c\<lparr>local := fs\<rparr>))
      else
        (let (ok, fs) = delete_local (local c) key in (ok, c\<lparr>local := fs\<rparr>)))"

text \<open>\<^verbatim>\<open>exists\<close>: the handler returns \<^verbatim>\<open>False\<close>.\<close>

definition exists_kv :: "data_client \<Rightarrow> string \<Rightarrow> int primary \<Rightarrow> bool" where
  "exists_kv c key reply =
     (if use_redis c \<and> redis_client c then
        (case reply of Replies n \<Rightarrow> n \<noteq> 0 | Raises \<Rightarrow> False)
      else exists_local (local c) key)"

text \<open>\<^verbatim>\<open>increment\<close>: the handler returns 0.\<close>

definition increment ::
  "data_client \<Rightarrow> string \<Rightarrow> int \<Rightarrow> int primary \<Rightarrow> datetime \<Rightarrow> int \<times> data_client" where
  "increment c key amount reply now =
     (if use_redis c \<and> redis_client c then
        (case reply of Replies n \<Rightarrow> (n, c) | Raises \<Rightarrow> (0, c))
      else
        (let (n, fs) = increment_local (local c) key amount now in (n, c\<lparr>local := fs\<rparr>)))"

text \<open>\<^verbatim>\<open>set_hash\<close>: the handler returns \<^verbatim>\<open>False\<close>.\<close>

definition set_hash ::
  "data_client \<Rightarrow> string \<Rightarrow> string \<Rightarrow> pyval \<Rightarrow> unit primary \<Rightarrow> datetime
     \<Rightarrow> bool \<times> data_client" where
  "set_hash c key field v reply now =
     (if use_redis c \<and> redis_client c then
        (case reply of Replies u \<Rightarrow> (True, c) | Raises \<Rightarrow> (False, c))
      else
        (let (ok, fs) = set_hash_local (local c) key field v now in (ok, c\<lparr>local := fs\<rparr>)))"

text \<open>\<^verbatim>\<open>get_hash\<close>: the handler returns \<^verbatim>\<open>None\<close>.\<close>

definition get_hash ::
  "(string \<Rightarrow> pyval option) \<Rightarrow> data_client \<Rightarrow> string \<Rightarrow> string \<Rightarrow> string option primary
     \<Rightarrow> datetime \<Rightarrow> pyval \<times> data_client" where
  "get_hash loads c key field reply now =
     (if use_redis c \<and> redis_client c then
        (case reply of
           Replies None \<Rightarrow> (PNone, c)
         | Replies (Some text) \<Rightarrow>
             (case loads text of Some v \<Rightarrow> (v, c) | None \<Rightarrow> (PStr text, c))
         | Raises \<Rightarrow> (PNone, c))
      else
        (let (v, fs) = get_hash_local (local c) key field now in (v, c\<lparr>local := fs\<rparr>)))"


section \<open>The rate limiter\<close>

text \<open>
  \<^verbatim>\<open>utils/rate_limit.py\<close> imports the module-level \<^verbatim>\<open>data_client\<close> of
  \<^verbatim>\<open>db/redis_client.py\<close> by name, at import time: the instance built by
  \<^verbatim>\<open>AureliusDataClient()\<close>, which is never connected (\<^verbatim>\<open>init_data_client\<close> rebinds
  the name in its own module to a new instance). On that instance \<^verbatim>\<open>get\<close>,
  \<^verbatim>\<open>set\<close> and \<^verbatim>\<open>increment\<close> are the local functions, so the rate limiter is modelled
  over the fallback directory. Each function reads the clock once, as \<open>now\<close>.
\<close>

datatype RateLimitPeriod = HOURLY | DAILY | WEEKLY | MONTHLY

datatype RateLimitResult = ALLOWED | LIMIT_REACHED | LIMIT_EXCEEDED

fun period_value :: "RateLimitPeriod \<Rightarrow> string" where
  "period_value HOURLY = ''hourly''"
| "period_value DAILY = ''daily''"
| "period_value WEEKLY = ''weekly''"
| "period_value MONTHLY = ''monthly''"

fun result_value :: "RateLimitResult \<Rightarrow> string" where
  "result_value ALLOWED = ''allowed''"
| "result_value LIMIT_REACHED = ''limit_reached''"
| "result_value LIMIT_EXCEEDED = ''limit_exceeded''"

text \<open>\<^verbatim>\<open>self.platform_limits\<close>: a dictionary of dictionaries, in insertion order.\<close>

type_synonym platform_limits = "(string \<times> (RateLimitPeriod \<times> int) list) list"

definition default_limits :: platform_limits where
  "default_limits =
     [(''twitter'', [(HOURLY, 5), (DAILY, 50)]),
      (''mastodon'', [(HOURLY, 10), (DAILY, 100)]),
      (''discord'', [(HOURLY, 20), (DAILY, 200)])]"

text \<open>\<^verbatim>\<open>str.lower\<close> on ASCII text.\<close>

definition lower_chr :: "char \<Rightarrow> char" where
  "lower_chr c =
     (case map_of (zip ''ABCDEFGHIJKLMNOPQRSTUVWXYZ'' ''abcdefghijklmnopqrstuvwxyz'') c of
        Some l \<Rightarrow> l
      | None \<Rightarrow> c)"

definition lower :: "string \<Rightarrow> string" where
  "lower s = map lower_chr s"

text \<open>\<^verbatim>\<open>_get_time_window_key\<close>\<close>

definition time_key :: "RateLimitPeriod \<Rightarrow> datetime \<Rightarrow> string" where
  "time_key period now =
     (case period of
        HOURLY \<Rightarrow> fmt_Y now @ ''-'' @ fmt_m now @ ''-'' @ fmt_d now @ ''-'' @ fmt_H now
      | DAILY \<Rightarrow> fmt_Y now @ ''-'' @ fmt_m now @ ''-'' @ fmt_d now
      | WEEKLY \<Rightarrow>
          (let monday = minus_days now (weekday now)
           in fmt_Y monday @ ''-W'' @ fmt_U monday)
      | MONTHLY \<Rightarrow> fmt_Y now @ ''-'' @ fmt_m now)"

definition get_time_window_key :: "string \<Rightarrow> RateLimitPeriod \<Rightarrow> string \<Rightarrow> datetime \<Rightarrow> string" where
  "get_time_window_key platform period action now =
     ''rate_limit:'' @ platform @ '':'' @ action @ '':'' @ period_value period @ '':''
       @ time_key period now"


text \<open>
  \<^verbatim>\<open>check_rate_limit\<close>. The handler of the \<^verbatim>\<open>try\<close> is reached when \<^verbatim>\<open>int()\<close> raises.
  The source compares the count with the float \<^verbatim>\<open>limit * 0.9\<close>; for counts and limits
  below \<open>2 ^ 49\<close> in size that comparison is \<open>9 * limit \<le> 10 * count\<close>, which is what
  is written here, and the float arithmetic of the logging call does not overflow.
\<close>

definition check_rate_limit ::
  "platform_limits \<Rightarrow> string \<Rightarrow> string \<Rightarrow> RateLimitPeriod \<Rightarrow> datetime \<Rightarrow> files
     \<Rightarrow> (RateLimitResult \<times> int \<times> int) \<times> files" where
  "check_rate_limit limits platform action period now fs =
     (let platform_lower = lower platform
      in case map_of limits platform_lower of
           None \<Rightarrow> ((ALLOWED, 0, 999999), fs)
         | Some periods \<Rightarrow>
             (case map_of periods period of
                None \<Rightarrow> ((ALLOWED, 0, 999999), fs)
              | Some limit \<Rightarrow>
                  let key = get_time_window_key platform_lower period action now;
                      (stored, fs1) = get_local fs key now
                  in (case py_int (py_or stored (PInt 0)) of
                        None \<Rightarrow> ((ALLOWED, 0, 999999), fs1)
                      | Some current_count \<Rightarrow>
                          if limit \<le> current_count
                          then ((LIMIT_EXCEEDED, current_count, limit), fs1)
                          else if 9 * limit \<le> 10 * current_count
                          then ((LIMIT_REACHED, current_count, limit), fs1)
                          else ((ALLOWED, current_count, limit), fs1))))"


text \<open>
  The \<^verbatim>\<open>details\<close> dictionary of \<^verbatim>\<open>is_action_allowed\<close>. The percentage, a float kept
  for display, is left out.
\<close>

record period_details =
  pd_result :: string
  pd_current :: int
  pd_limit :: int
  pd_remaining :: int

record details =
  d_error :: "string option"
  d_platform :: string
  d_action :: string
  d_allowed :: bool
  d_periods :: "(string \<times> period_details) list"
  d_blocked_by :: "string option"

text \<open>\<^verbatim>\<open>details['periods'][period.value] = period_details\<close>\<close>

fun periods_set ::
  "(string \<times> period_details) list \<Rightarrow> string \<Rightarrow> period_details \<Rightarrow> (string \<times> period_details) list" where
  "periods_set [] k v = [(k, v)]"
| "periods_set ((k', w) # kvs) k v =
     (if k' = k then (k', v) # kvs else (k', w) # periods_set kvs k v)"

text \<open>The body of the loop of \<^verbatim>\<open>is_action_allowed\<close>, and the loop.\<close>

definition check_period ::
  "platform_limits \<Rightarrow> string \<Rightarrow> string \<Rightarrow> datetime \<Rightarrow> RateLimitPeriod \<Rightarrow> details \<times> files
     \<Rightarrow> details \<times> files" where
  "check_period limits platform action now period st =
     (let (d, fs) = st;
          ((result, current, limit), fs1) = check_rate_limit limits platform action period now fs;
          pd = \<lparr>pd_result = result_value result, pd_current = current, pd_limit = limit,
                pd_remaining = max 0 (limit - current)\<rparr>;
          d1 = d\<lparr>d_periods := periods_set (d_periods d) (period_value period) pd\<rparr>
      in if result = LIMIT_EXCEEDED
         then (d1\<lparr>d_allowed := False, d_blocked_by := Some (period_value period)\<rparr>, fs1)
         else (d1, fs1))"

fun check_periods ::
  "platform_limits \<Rightarrow> string \<Rightarrow> string \<Rightarrow> datetime \<Rightarrow> RateLimitPeriod list \<Rightarrow> details \<times> files
     \<Rightarrow> details \<times> files" where
  "check_periods limits platform action now [] st = st"
| "check_periods limits platform action now (period # ps) st =
     check_periods limits platform action now ps
       (check_period limits platform action now period st)"

text \<open>\<^verbatim>\<open>is_action_allowed\<close>\<close>

definition is_action_allowed ::
  "platform_limits \<Rightarrow> string \<Rightarrow> string \<Rightarrow> bool \<Rightarrow> datetime \<Rightarrow> files
     \<Rightarrow> (bool \<times> details) \<times> files" where
  "is_action_allowed limits platform action check_all_periods now fs =
     (let platform_lower = lower platform
      in case map_of limits platform_lower of
           None \<Rightarrow>
             ((True, \<lparr>d_error = Some (''Unknown platform: '' @ platform), d_platform = [],
                      d_action = [], d_allowed = True, d_periods = [],
                      d_blocked_by = None\<rparr>), fs)
         | Some periods \<Rightarrow>
             let d0 = \<lparr>d_error = None, d_platform = platform, d_action = action,
                       d_allowed = True, d_periods = [], d_blocked_by = None\<rparr>;
                 periods_to_check = (if check_all_periods then map fst periods else [HOURLY]);
                 (d, fs1) = check_periods limits platform action now periods_to_check (d0, fs)
             in ((d_allowed d, d), fs1))"




text \<open>
  The object \<^verbatim>\<open>is_action_allowed\<close> returns: a tuple of the flag and the dictionary.
\<close>

definition period_details_obj :: "period_details \<Rightarrow> pyval" where
  "period_details_obj pd =
     PDict [(''result'', PStr (pd_result pd)), (''current'', PInt (pd_current pd)),
            (''limit'', PInt (pd_limit pd)), (''remaining'', PInt (pd_remaining pd))]"

definition details_obj :: "details \<Rightarrow> pyval" where
  "details_obj d =
     (case d_error d of
        Some msg \<Rightarrow> PDict [(''error'', PStr msg)]
      | None \<Rightarrow>
          PDict ([(''platform'', PStr (d_platform d)), (''action'', PStr (d_action d)),
                  (''allowed'', PBool (d_allowed d)),
                  (''periods'', PDict (map (\<lambda>(k, pd). (k, period_details_obj pd)) (d_periods d)))]
                 @ (case d_blocked_by d of Some p \<Rightarrow> [(''blocked_by'', PStr p)] | None \<Rightarrow> [])))"

definition allowed_obj :: "bool \<times> details \<Rightarrow> pyval" where
  "allowed_obj r = PTuple [PBool (fst r), details_obj (snd r)]"

text \<open>
  The guard of \<^verbatim>\<open>_social_posting_loop\<close> in \<^verbatim>\<open>main.py\<close>:
  \<^verbatim>\<open>if not await rate_limiter.is_action_allowed(platform, "post"): ... continue\<close>.
  It is true when the platform is skipped.
\<close>

definition posting_guard :: "platform_limits \<Rightarrow> string \<Rightarrow> datetime \<Rightarrow> files \<Rightarrow> bool" where
  "posting_guard limits platform now fs =
     (\<not> truthy (allowed_obj (fst (is_action_allowed limits platform ''post'' True now fs))))"



subsection \<open>The ISO 8601 week\<close>

text \<open>
  The ISO week identifier that the specification names for the weekly bucket, computed
  as the library's \<^verbatim>\<open>isocalendar\<close> does: week 1 is the week, starting on Monday, that
  holds the year's first Thursday.
\<close>

definition isoweek1monday :: "int \<Rightarrow> int" where
  "isoweek1monday year =
     (let firstday = days_before_year year + 1;
          firstweekday = (firstday + 6) mod 7;
          week1monday = firstday - firstweekday
      in if firstweekday > 3 then week1monday + 7 else week1monday)"

definition isocalendar :: "datetime \<Rightarrow> int \<times> int" where
  "isocalendar t =
     (let year = year_of t;
          today = toordinal t;
          week = (today - isoweek1monday year) div 7
      in if week < 0 then (year - 1, (today - isoweek1monday (year - 1)) div 7 + 1)
         else if week \<ge> 52 \<and> today \<ge> isoweek1monday (year + 1) then (year + 1, 1)
         else (year, week + 1))"

definition spec_iso_week_id :: "datetime \<Rightarrow> string" where
  "spec_iso_week_id t = pad4 (fst (isocalendar t)) @ ''-W'' @ pad2 (snd (isocalendar t))"

text \<open>\<open>contains s k\<close>: the text \<open>s\<close> occurs in the text \<open>k\<close>.\<close>

fun starts_with :: "string \<Rightarrow> string \<Rightarrow> bool" where
  "starts_with [] k = True"
| "starts_with (c # cs) [] = False"
| "starts_with (c # cs) (d # ds) = (c = d \<and> starts_with cs ds)"

fun contains :: "string \<Rightarrow> string \<Rightarrow> bool" where
  "contains s [] = starts_with s []"
| "contains s (d # ds) = (starts_with s (d # ds) \<or> contains s ds)"

text \<open>Two instants lie in the same week from Monday 00:00 to Sunday 24:00.\<close>

definition same_week :: "datetime \<Rightarrow> datetime \<Rightarrow> bool" where
  "same_week t1 t2 = (toordinal t1 - weekday t1 = toordinal t2 - weekday t2)"

section \<open>The sanitizer\<close>

text \<open>
  \<^verbatim>\<open>SecurityValidator.sanitize_text\<close> of \<^verbatim>\<open>utils/security.py\<close>. Two steps belong to
  libraries outside the program and are parameters: \<open>bleach_clean\<close> is
  \<^verbatim>\<open>bleach.clean\<close> with the class's tags and attributes, and \<open>re_sub pattern repl text\<close>
  is \<^verbatim>\<open>re.sub\<close> with the flags of the call. Text is ASCII, one character per code point.
\<close>

definition bs :: char where
  "bs = CHR 0x5C"

definition DANGEROUS_PATTERNS :: "string list" where
  "DANGEROUS_PATTERNS =
     [''<script[^>]*>.*?</script>'',
      ''javascript:'',
      ''on'' @ [bs] @ ''w+'' @ [bs] @ ''s*='',
      ''<iframe[^>]*>.*?</iframe>'',
      ''<object[^>]*>.*?</object>'',
      ''<embed[^>]*>.*?</embed>'',
      ''<link[^>]*>'',
      ''<meta[^>]*>'',
      ''<style[^>]*>.*?</style>'',
      ''data:text/html'',
      ''vbscript:'',
      ''expression'' @ [bs] @ ''s*'' @ [bs] @ ''('']"

text \<open>\<^verbatim>\<open>html.escape\<close> with \<^verbatim>\<open>quote=True\<close>\<close>

definition escape_chr :: "char \<Rightarrow> string" where
  "escape_chr c =
     (if c = CHR ''&'' then ''&amp;''
      else if c = CHR ''<'' then ''&lt;''
      else if c = CHR ''>'' then ''&gt;''
      else if c = CHR 0x22 then ''&quot;''
      else if c = CHR 0x27 then ''&#x27;''
      else [c])"

definition html_escape :: "string \<Rightarrow> string" where
  "html_escape s = concat (map escape_chr s)"

text \<open>The slice \<^verbatim>\<open>text[:k]\<close>: a negative \<open>k\<close> counts from the end.\<close>

definition slice_to :: "string \<Rightarrow> int \<Rightarrow> string" where
  "slice_to text k = (if k < 0 then take (nat (int (length text) + k)) text else take (nat k) text)"

definition sanitize_text ::
  "(string \<Rightarrow> string) \<Rightarrow> (string \<Rightarrow> string \<Rightarrow> string \<Rightarrow> string) \<Rightarrow> string \<Rightarrow> int option \<Rightarrow> string" where
  "sanitize_text bleach_clean re_sub text max_length =
     (let t1 = filter (\<lambda>c. c \<noteq> CHR 0x00) text;
          t2 = html_escape t1;
          t3 = bleach_clean t2;
          t4 = foldl (\<lambda>t pattern. re_sub pattern [] t) t3 DANGEROUS_PATTERNS;
          t5 = strip (re_sub ([bs] @ ''s+'') '' '' t4)
      in case max_length of
           None \<Rightarrow> t5
         | Some m \<Rightarrow>
             if m \<noteq> 0 \<and> int (length t5) > m then slice_to t5 (m - 3) @ ''...'' else t5)"


section \<open>Notions used in the statements\<close>


text \<open>
  \<open>pruned now fs' fs\<close>: the directory \<open>fs'\<close> is \<open>fs\<close> without some of the entries
  that are past their expiry at \<open>now\<close>. Reads at \<open>now\<close> turn \<open>fs\<close> into such an
  \<open>fs'\<close>.
\<close>

definition pruned :: "datetime \<Rightarrow> files \<Rightarrow> files \<Rightarrow> bool" where
  "pruned now fs' fs =
     (\<forall>k. fs' k = fs k
          \<or> (fs' k = None \<and> (\<exists>e x. fs k = Some e \<and> expires_at e = Some x \<and> now > x)))"

text \<open>
  The instants a \<^verbatim>\<open>datetime\<close> can hold: from 0001-01-01 00:00:00 up to the end of
  9999-12-31.
\<close>

definition valid_datetime :: "datetime \<Rightarrow> bool" where
  "valid_datetime t = (0 \<le> t \<and> t < 3652059 * us_per_day)"

section \<open>Facts about the local store\<close>


lemma get_local_files:
  "snd (get_local fs key now) = fs \<or> snd (get_local fs key now) = fs(key := None)"
  by (simp add: get_local_def delete_local_def split: option.splits)

lemma get_local_other:
  "k \<noteq> key \<Longrightarrow> snd (get_local fs key now) k = fs k"
  using get_local_files [of fs key now] by auto






subsection \<open>Counting in one bucket\<close>




subsection \<open>Reads only drop expired entries\<close>

lemma pruned_refl: "pruned now fs fs"
  by (simp add: pruned_def)

lemma get_local_pruned:
  assumes "pruned now fs' fs"
  shows "fst (get_local fs' key now) = fst (get_local fs key now)"
    and "pruned now (snd (get_local fs' key now)) fs"
proof -
  from assms have k: "fs' key = fs key
      \<or> (fs' key = None \<and> (\<exists>e x. fs key = Some e \<and> expires_at e = Some x \<and> now > x))"
    by (simp add: pruned_def)
  then show "fst (get_local fs' key now) = fst (get_local fs key now)"
    by (auto simp: get_local_def delete_local_def split: option.splits)
  show "pruned now (snd (get_local fs' key now)) fs"
    unfolding pruned_def
  proof
    fix k
    from assms have a: "fs' k = fs k
      \<or> (fs' k = None \<and> (\<exists>e x. fs k = Some e \<and> expires_at e = Some x \<and> now > x))"
      by (simp add: pruned_def)
    show "snd (get_local fs' key now) k = fs k
      \<or> (snd (get_local fs' key now) k = None
          \<and> (\<exists>e x. fs k = Some e \<and> expires_at e = Some x \<and> now > x))"
    proof (cases "k = key")
      case False
      then show ?thesis using a by (simp add: get_local_other)
    next
      case True
      show ?thesis
      proof (cases "fs key")
        case None
        then show ?thesis using a True by (simp add: get_local_def)
      next
        case (Some e)
        then show ?thesis using a True
          by (cases "expires_at e")
            (auto simp: get_local_def delete_local_def split: if_splits)
      qed
    qed
  qed
qed

lemma check_rate_limit_pruned:
  assumes "pruned now fs' fs"
  shows "fst (check_rate_limit limits platform action period now fs')
           = fst (check_rate_limit limits platform action period now fs)"
    and "pruned now (snd (check_rate_limit limits platform action period now fs')) fs"
  using assms get_local_pruned [OF assms]
  by (auto simp: check_rate_limit_def Let_def split_beta split: option.splits)


lemma check_period_step:
  assumes "pruned now fs' fs"
  shows "d_allowed (fst (check_period limits platform action now p (d, fs')))
           = (d_allowed d
              \<and> fst (fst (check_rate_limit limits platform action p now fs)) \<noteq> LIMIT_EXCEEDED)"
    and "pruned now (snd (check_period limits platform action now p (d, fs'))) fs"
    and "d_blocked_by (fst (check_period limits platform action now p (d, fs')))
           = (if fst (fst (check_rate_limit limits platform action p now fs)) = LIMIT_EXCEEDED
              then Some (period_value p) else d_blocked_by d)"
  using check_rate_limit_pruned [OF assms, of limits platform action p]
  by (auto simp: check_period_def Let_def split_beta)

lemma check_periods_allowed:
  assumes "pruned now fs' fs"
  shows "d_allowed (fst (check_periods limits platform action now ps (d, fs')))
           = (d_allowed d
              \<and> (\<forall>p\<in>set ps. fst (fst (check_rate_limit limits platform action p now fs))
                     \<noteq> LIMIT_EXCEEDED))
         \<and> pruned now (snd (check_periods limits platform action now ps (d, fs'))) fs"
  using assms
proof (induction ps arbitrary: d fs')
  case Nil
  then show ?case by simp
next
  case (Cons p ps)
  obtain d1 fs1 where st: "check_period limits platform action now p (d, fs') = (d1, fs1)"
    by (cases "check_period limits platform action now p (d, fs')")
  from check_period_step [OF Cons.prems, of limits platform action p d] st
  have a: "d_allowed d1 = (d_allowed d
              \<and> fst (fst (check_rate_limit limits platform action p now fs)) \<noteq> LIMIT_EXCEEDED)"
    and b: "pruned now fs1 fs" by simp_all
  from Cons.IH [OF b, of d1] a st show ?case by auto
qed


subsection \<open>Each period has its own key\<close>










subsection \<open>The sanitizer's output\<close>

text \<open>
  When neither library step brings in the character \<open><\<close>, the sanitized text holds
  none, so no tag; and a limit of three or more is kept.
\<close>

lemma html_escape_no_lt: "CHR ''<'' \<notin> set (html_escape s)"
  by (induction s) (auto simp: html_escape_def escape_chr_def)

lemma strip_subset: "set (strip s) \<subseteq> set s"
proof -
  have "set (dropWhile is_space (rev (dropWhile is_space s))) \<subseteq> set (rev (dropWhile is_space s))"
    by (rule set_dropWhileD [THEN subsetI])
  also have "\<dots> \<subseteq> set s" using set_dropWhileD by fastforce
  finally show ?thesis by (simp add: strip_def)
qed

lemma slice_to_subset: "set (slice_to t k) \<subseteq> set t"
  by (auto simp: slice_to_def dest: in_set_takeD)

lemma foldl_re_sub_no_lt:
  assumes "\<And>p r t. CHR ''<'' \<notin> set t \<Longrightarrow> CHR ''<'' \<notin> set r \<Longrightarrow> CHR ''<'' \<notin> set (re_sub p r t)"
    and "CHR ''<'' \<notin> set t"
  shows "CHR ''<'' \<notin> set (foldl (\<lambda>t pattern. re_sub pattern [] t) t ps)"
  using assms(2) by (induction ps arbitrary: t) (simp_all add: assms(1))

lemma sanitize_text_no_tag:
  assumes b: "\<And>t. CHR ''<'' \<notin> set t \<Longrightarrow> CHR ''<'' \<notin> set (bleach_clean t)"
    and r: "\<And>p r t. CHR ''<'' \<notin> set t \<Longrightarrow> CHR ''<'' \<notin> set r \<Longrightarrow> CHR ''<'' \<notin> set (re_sub p r t)"
  shows "CHR ''<'' \<notin> set (sanitize_text bleach_clean re_sub text max_length)"
proof -
  let ?t3 = "bleach_clean (html_escape (filter (\<lambda>c. c \<noteq> CHR 0x00) text))"
  let ?t4 = "foldl (\<lambda>t pattern. re_sub pattern [] t) ?t3 DANGEROUS_PATTERNS"
  let ?t5 = "strip (re_sub ([bs] @ ''s+'') '' '' ?t4)"
  have "CHR ''<'' \<notin> set ?t3" by (rule b) (rule html_escape_no_lt)
  then have "CHR ''<'' \<notin> set ?t4"
    using foldl_re_sub_no_lt [of re_sub ?t3 DANGEROUS_PATTERNS] r by blast
  then have "CHR ''<'' \<notin> set (re_sub ([bs] @ ''s+'') '' '' ?t4)" by (intro r) simp_all
  then have t5: "CHR ''<'' \<notin> set ?t5" using strip_subset by blast
  then have "CHR ''<'' \<notin> set (slice_to ?t5 k @ ''...'')" for k
    using slice_to_subset [of ?t5 k] by auto
  with t5 show ?thesis
    by (auto simp: sanitize_text_def Let_def split: option.splits)
qed

lemma sanitize_text_length:
  assumes "3 \<le> m"
  shows "int (length (sanitize_text bleach_clean re_sub text (Some m))) \<le> m"
  using assms by (auto simp: sanitize_text_def Let_def slice_to_def)

subsection \<open>The calendar\<close>

text \<open>
  The year that \<open>ord2ymd\<close> gives for an ordinal starts at most 365 days before it, and
  the ordinals of the years 1 to 9999 give those years.
\<close>

lemma div_decomp:
  fixes k r m :: int
  assumes "0 \<le> r" "r < m"
  shows "(m * k + r) div m = k"
  using assms by simp

lemma dby_decomp:
  fixes a b c d :: int
  assumes "0 \<le> b" "b \<le> 3" "0 \<le> c" "c \<le> 24" "0 \<le> d" "d \<le> 3"
  shows "days_before_year (400 * a + 100 * b + 4 * c + d + 1)
           = 146097 * a + 36524 * b + 1461 * c + 365 * d"
proof -
  let ?y = "400 * a + 100 * b + 4 * c + d"
  have "?y = 4 * (100 * a + 25 * b + c) + d" by simp
  then have q4: "?y div 4 = 100 * a + 25 * b + c"
    using div_decomp [of d 4 "100 * a + 25 * b + c"] assms by simp
  have "?y = 100 * (4 * a + b) + (4 * c + d)" by simp
  then have q100: "?y div 100 = 4 * a + b"
    using div_decomp [of "4 * c + d" 100 "4 * a + b"] assms by simp
  have "?y = 400 * a + (100 * b + 4 * c + d)" by simp
  then have q400: "?y div 400 = a"
    using div_decomp [of "100 * b + 4 * c + d" 400 a] assms by simp
  show ?thesis
    by (simp add: days_before_year_def Let_def q4 q100 q400)
qed




lemma ord2ymd_year:
  "fst (ord2ymd ordinal) =
     (let n = ordinal - 1;
          n400 = n div 146097; na = n mod 146097;
          n100 = na div 36524; nb = na mod 36524;
          n4 = nb div 1461; nc = nb mod 1461;
          n1 = nc div 365;
          year = n400 * 400 + 1 + n100 * 100 + n4 * 4 + n1
      in if n1 = 4 \<or> n100 = 4 then year - 1 else year)"
  unfolding ord2ymd_def Let_def
  by (simp only: if_distrib [of fst] fst_conv if_cancel split: if_splits)

lemma yday_bounds:
  "0 \<le> ordinal - 1 - days_before_year (fst (ord2ymd ordinal))
   \<and> ordinal - 1 - days_before_year (fst (ord2ymd ordinal)) \<le> 365"
proof -
  define n where "n = ordinal - 1"
  define n400 where "n400 = n div 146097"
  define na where "na = n mod 146097"
  define n100 where "n100 = na div 36524"
  define nb where "nb = na mod 36524"
  define n4 where "n4 = nb div 1461"
  define nc where "nc = nb mod 1461"
  define n1 where "n1 = nc div 365"
  define nd where "nd = nc mod 365"
  have ra: "0 \<le> na" "na < 146097" by (simp_all add: na_def)
  have rb: "0 \<le> nb" "nb < 36524" by (simp_all add: nb_def)
  have rc: "0 \<le> nc" "nc < 1461" by (simp_all add: nc_def)
  have rd: "0 \<le> nd" "nd < 365" by (simp_all add: nd_def)
  have e0: "n = 146097 * n400 + na" by (simp add: n400_def na_def)
  have e1: "na = 36524 * n100 + nb" by (simp add: n100_def nb_def)
  have e2: "nb = 1461 * n4 + nc" by (simp add: n4_def nc_def)
  have e3: "nc = 365 * n1 + nd" by (simp add: n1_def nd_def)
  have r100: "0 \<le> n100" "n100 \<le> 4" using ra rb e1 by linarith+
  have r4: "0 \<le> n4" "n4 \<le> 24" using rb rc e2 by linarith+
  have r1: "0 \<le> n1" "n1 \<le> 4" using rc rd e3 by linarith+
  have yr: "fst (ord2ymd ordinal) =
      (if n1 = 4 \<or> n100 = 4 then n400 * 400 + 1 + n100 * 100 + n4 * 4 + n1 - 1
       else n400 * 400 + 1 + n100 * 100 + n4 * 4 + n1)"
    unfolding n_def n400_def na_def n100_def nb_def n4_def nc_def n1_def
    by (simp only: ord2ymd_year Let_def)
  have goal: "0 \<le> n - days_before_year (fst (ord2ymd ordinal))
              \<and> n - days_before_year (fst (ord2ymd ordinal)) \<le> 365"
  proof (cases "n100 = 4")
    case True
    then have "nb = 0" using e1 ra rb by linarith
    then have z: "n4 = 0" "nc = 0" "n1 = 0" "nd = 0"
      by (simp_all add: n4_def nc_def n1_def nd_def)
    have "fst (ord2ymd ordinal) = 400 * n400 + 100 * 3 + 4 * 24 + 3 + 1"
      using yr True z by simp
    then have "days_before_year (fst (ord2ymd ordinal))
                 = 146097 * n400 + 36524 * 3 + 1461 * 24 + 365 * 3"
      using dby_decomp [of 3 24 3 n400] by simp
    then show ?thesis using e0 e1 True \<open>nb = 0\<close> by simp
  next
    case n100: False
    show ?thesis
    proof (cases "n1 = 4")
      case True
      then have "nd = 0" using e3 rc rd by linarith
      have "fst (ord2ymd ordinal) = 400 * n400 + 100 * n100 + 4 * n4 + 3 + 1"
        using yr True by simp
      then have "days_before_year (fst (ord2ymd ordinal))
                   = 146097 * n400 + 36524 * n100 + 1461 * n4 + 365 * 3"
        using dby_decomp [of n100 n4 3 n400] r100 n100 r4 by simp
      then show ?thesis using e0 e1 e2 e3 True \<open>nd = 0\<close> by simp
    next
      case False
      have "fst (ord2ymd ordinal) = 400 * n400 + 100 * n100 + 4 * n4 + n1 + 1"
        using yr False n100 by simp
      then have "days_before_year (fst (ord2ymd ordinal))
                   = 146097 * n400 + 36524 * n100 + 1461 * n4 + 365 * n1"
        using dby_decomp [of n100 n4 n1 n400] r100 n100 r4 r1 False by simp
      then show ?thesis using e0 e1 e2 e3 rd by simp
    qed
  qed
  then show ?thesis by (simp add: n_def)
qed

lemma year_decomp:
  fixes y :: int
  obtains a b c d where "y = 400 * a + 100 * b + 4 * c + d + 1"
    and "0 \<le> b" "b \<le> 3" "0 \<le> c" "c \<le> 24" "0 \<le> d" "d \<le> 3"
proof -
  define z where "z = y - 1"
  define a where "a = z div 400"
  define r where "r = z mod 400"
  define b where "b = r div 100"
  define r2 where "r2 = r mod 100"
  define c where "c = r2 div 4"
  define d where "d = r2 mod 4"
  have rr: "0 \<le> r" "r < 400" by (simp_all add: r_def)
  have rr2: "0 \<le> r2" "r2 < 100" by (simp_all add: r2_def)
  have rd: "0 \<le> d" "d < 4" by (simp_all add: d_def)
  have e0: "z = 400 * a + r" by (simp add: a_def r_def)
  have e1: "r = 100 * b + r2" by (simp add: b_def r2_def)
  have e2: "r2 = 4 * c + d" by (simp add: c_def d_def)
  have "y = 400 * a + 100 * b + 4 * c + d + 1" using e0 e1 e2 by (simp add: z_def)
  moreover have "0 \<le> b" "b \<le> 3" using rr rr2 e1 by linarith+
  moreover have "0 \<le> c" "c \<le> 24" using rr2 rd e2 by linarith+
  moreover have "0 \<le> d" "d \<le> 3" using rd by linarith+
  ultimately show ?thesis by (rule that)
qed

lemma dby_low: "y \<le> 0 \<Longrightarrow> days_before_year y \<le> - 366"
proof -
  assume y: "y \<le> 0"
  obtain a b c d where e: "y = 400 * a + 100 * b + 4 * c + d + 1"
    and r: "0 \<le> b" "b \<le> 3" "0 \<le> c" "c \<le> 24" "0 \<le> d" "d \<le> 3"
    by (rule year_decomp)
  have "a \<le> - 1" using y e r by linarith
  moreover have "days_before_year y = 146097 * a + 36524 * b + 1461 * c + 365 * d"
    unfolding e using r by (rule dby_decomp)
  ultimately show ?thesis using r by linarith
qed

lemma dby_high: "10000 \<le> y \<Longrightarrow> 3652059 \<le> days_before_year y"
proof -
  assume y: "10000 \<le> y"
  obtain a b c d where e: "y = 400 * a + 100 * b + 4 * c + d + 1"
    and r: "0 \<le> b" "b \<le> 3" "0 \<le> c" "c \<le> 24" "0 \<le> d" "d \<le> 3"
    by (rule year_decomp)
  have a: "24 \<le> a" using y e r by linarith
  have d: "days_before_year y = 146097 * a + 36524 * b + 1461 * c + 365 * d"
    unfolding e using r by (rule dby_decomp)
  show ?thesis
  proof (cases "a = 24")
    case True
    then have "3 \<le> b" using y e r by linarith
    then have "b = 3" using r by linarith
    then have c: "24 \<le> c" using y e r True by linarith
    then have "3 \<le> d" using y e r True \<open>b = 3\<close> by linarith
    then show ?thesis using d True \<open>b = 3\<close> c r by linarith
  next
    case False
    then have "25 \<le> a" using a by linarith
    then show ?thesis using d r by linarith
  qed
qed

lemma year_range:
  assumes "1 \<le> ordinal" and "ordinal \<le> 3652059"
  shows "1 \<le> fst (ord2ymd ordinal) \<and> fst (ord2ymd ordinal) \<le> 9999"
proof -
  let ?y = "fst (ord2ymd ordinal)"
  from yday_bounds [of ordinal]
  have b: "days_before_year ?y \<le> ordinal - 1" "ordinal - 1 - 365 \<le> days_before_year ?y"
    by linarith+
  have "\<not> ?y \<le> 0" using dby_low [of ?y] b(2) assms(1) by linarith
  moreover have "\<not> 10000 \<le> ?y" using dby_high [of ?y] b(1) assms(2) by linarith
  ultimately show ?thesis by linarith
qed

subsection \<open>Formatted numbers\<close>

lemma digit_chr_inj:
  assumes "0 \<le> a" "a \<le> 9" "0 \<le> b" "b \<le> 9" "digit_chr a = digit_chr b"
  shows "a = b"
proof -
  have d: "distinct ''0123456789''" by simp
  have l: "nat a < length ''0123456789''" "nat b < length ''0123456789''" using assms by simp_all
  from assms(5) have "''0123456789'' ! nat a = ''0123456789'' ! nat b"
    by (simp only: digit_chr_def)
  then have "nat a = nat b" by (rule iffD1 [OF nth_eq_iff_index_eq [OF d l]])
  then show ?thesis using assms by linarith
qed

lemma digit_mod_inj:
  fixes x y :: int
  assumes "digit_chr (x mod 10) = digit_chr (y mod 10)"
  shows "x mod 10 = y mod 10"
proof (rule digit_chr_inj [OF _ _ _ _ assms])
  show "0 \<le> x mod 10" "0 \<le> y mod 10" by simp_all
  have "x mod 10 < 10" "y mod 10 < 10" by simp_all
  then show "x mod 10 \<le> 9" "y mod 10 \<le> 9" by linarith+
qed

lemma div_mod_10_eq:
  fixes a b :: int
  assumes "a div 10 = b div 10" "a mod 10 = b mod 10"
  shows "a = b"
proof -
  have "a = 10 * (a div 10) + a mod 10" "b = 10 * (b div 10) + b mod 10" by simp_all
  with assms show ?thesis by simp
qed

lemma pad2_inj:
  assumes "0 \<le> a" "a < 100" "0 \<le> b" "b < 100" "pad2 a = pad2 b"
  shows "a = b"
proof -
  from assms(5) have d1: "digit_chr (a div 10 mod 10) = digit_chr (b div 10 mod 10)"
    and d0: "digit_chr (a mod 10) = digit_chr (b mod 10)" by (simp_all add: pad2_def)
  from d1 have e1: "a div 10 mod 10 = b div 10 mod 10" by (rule digit_mod_inj)
  from d0 have e0: "a mod 10 = b mod 10" by (rule digit_mod_inj)
  have "a div 10 mod 10 = a div 10" "b div 10 mod 10 = b div 10" using assms by simp_all
  with e1 have "a div 10 = b div 10" by simp
  then show ?thesis using e0 by (rule div_mod_10_eq)
qed

lemma pad4_inj:
  assumes "0 \<le> a" "a < 10000" "0 \<le> b" "b < 10000" "pad4 a = pad4 b"
  shows "a = b"
proof -
  from assms(5) have d3: "digit_chr (a div 1000 mod 10) = digit_chr (b div 1000 mod 10)"
    and d2: "digit_chr (a div 100 mod 10) = digit_chr (b div 100 mod 10)"
    and d1: "digit_chr (a div 10 mod 10) = digit_chr (b div 10 mod 10)"
    and d0: "digit_chr (a mod 10) = digit_chr (b mod 10)" by (simp_all add: pad4_def)
  note e3 = digit_mod_inj [OF d3] and e2 = digit_mod_inj [OF d2]
    and e1 = digit_mod_inj [OF d1] and e0 = digit_mod_inj [OF d0]
  have "a div 1000 mod 10 = a div 1000" "b div 1000 mod 10 = b div 1000" using assms by simp_all
  with e3 have q3: "a div 1000 = b div 1000" by simp
  have "a div 100 div 10 = a div 1000" "b div 100 div 10 = b div 1000"
    by (simp_all add: zdiv_zmult2_eq [symmetric])
  with q3 have "a div 100 div 10 = b div 100 div 10" by simp
  then have q2: "a div 100 = b div 100" using e2 by (rule div_mod_10_eq)
  have "a div 10 div 10 = a div 100" "b div 10 div 10 = b div 100"
    by (simp_all add: zdiv_zmult2_eq [symmetric])
  with q2 have "a div 10 div 10 = b div 10 div 10" by simp
  then have q1: "a div 10 = b div 10" using e1 by (rule div_mod_10_eq)
  then show ?thesis using e0 by (rule div_mod_10_eq)
qed

lemma toordinal_minus_days: "toordinal (minus_days t d) = toordinal t - d"
proof -
  have "(t + (- d) * 86400000000) div 86400000000 = (- d) + t div (86400000000::int)"
    by (rule div_mult_self1) simp
  then show ?thesis
    by (simp add: toordinal_def minus_days_def us_per_day_def us_per_second_def)
qed

lemma valid_datetime_ordinal:
  assumes "valid_datetime t"
  shows "1 \<le> toordinal t" "toordinal t \<le> 3652059"
proof -
  from assms have a: "0 \<le> t" "t < 3652059 * 86400000000"
    by (simp_all add: valid_datetime_def us_per_day_def us_per_second_def)
  from a(1) have "0 \<le> t div 86400000000" by simp
  then show "1 \<le> toordinal t"
    by (simp add: toordinal_def us_per_day_def us_per_second_def)
  from a(2) have "t div 86400000000 < 3652059" by linarith
  then show "toordinal t \<le> 3652059"
    by (simp add: toordinal_def us_per_day_def us_per_second_def)
qed

subsection \<open>The Monday of a week\<close>

lemma monday_ordinal:
  "toordinal (minus_days t (weekday t)) = toordinal t - weekday t"
  by (rule toordinal_minus_days)

lemma monday_weekday: "weekday (minus_days t (weekday t)) = 0"
proof -
  have "(toordinal t - (toordinal t + 6) mod 7 + 6) mod 7 = 0" by presburger
  then show ?thesis by (simp add: weekday_def [of "minus_days t (weekday t)"] monday_ordinal)
       (simp add: weekday_def)
qed

lemma monday_valid:
  assumes "valid_datetime t"
  shows "1 \<le> toordinal (minus_days t (weekday t))"
    and "toordinal (minus_days t (weekday t)) \<le> 3652059"
proof -
  note o = valid_datetime_ordinal [OF assms]
  have "0 \<le> weekday t" "weekday t < 7" by (simp_all add: weekday_def)
  then have w: "0 \<le> weekday t" "weekday t \<le> 6" by linarith+
  have "1 \<le> toordinal t - (toordinal t + 6) mod 7" using o(1) by presburger
  then show "1 \<le> toordinal (minus_days t (weekday t))"
    by (simp add: monday_ordinal) (simp add: weekday_def)
  show "toordinal (minus_days t (weekday t)) \<le> 3652059"
    using o(2) w by (simp add: monday_ordinal)
qed


lemma week_U_range:
  "0 \<le> week_U t \<and> week_U t < 100"
proof -
  from yday_bounds [of "toordinal t"]
  have y: "0 \<le> tm_yday t" "tm_yday t \<le> 365"
    by (simp_all add: tm_yday_def year_of_def)
  have "0 \<le> tm_wday t" "tm_wday t < 7" by (simp_all add: tm_wday_def)
  with y have "0 \<le> tm_yday t + 7 - tm_wday t" "tm_yday t + 7 - tm_wday t < 700" by linarith+
  then show ?thesis unfolding week_U_def by presburger
qed

lemma ordinal_determines:
  assumes "toordinal t = toordinal u"
  shows "year_of t = year_of u" and "week_U t = week_U u"
  using assms
  by (simp_all add: year_of_def week_U_def tm_yday_def tm_wday_def weekday_def)

lemma monday_week_inj:
  assumes "weekday t = 0" "weekday u = 0" "year_of t = year_of u" "week_U t = week_U u"
  shows "toordinal t = toordinal u"
proof -
  define D where "D = days_before_year (year_of t)"
  have w: "(toordinal t + 6) mod 7 = 0" "(toordinal u + 6) mod 7 = 0"
    using assms(1,2) by (simp_all add: weekday_def)
  have "tm_wday t = 1" "tm_wday u = 1" using assms(1,2) by (simp_all add: tm_wday_def)
  then have "(toordinal t - D - 1 + 7 - 1) div 7 = (toordinal u - D - 1 + 7 - 1) div 7"
    using assms(3,4) by (simp add: week_U_def tm_yday_def D_def)
  with w show ?thesis by presburger
qed

lemma weekly_key_parts:
  "(get_time_window_key platform WEEKLY action t1 = get_time_window_key platform WEEKLY action t2)
     = (pad4 (year_of (minus_days t1 (weekday t1))) = pad4 (year_of (minus_days t2 (weekday t2)))
        \<and> pad2 (week_U (minus_days t1 (weekday t1))) = pad2 (week_U (minus_days t2 (weekday t2))))"
  by (simp add: get_time_window_key_def time_key_def Let_def fmt_Y_def fmt_U_def pad4_def pad2_def)

section \<open>Properties of the rate limiter\<close>

text \<open>
  Claim C9. A platform that is not in the configuration, and a configured platform asked
  about a period it has no limit for, are allowed by \<^verbatim>\<open>check_rate_limit\<close> with a count
  of 0 against the ceiling 999999; the store is not touched.
\<close>

theorem check_rate_limit_fail_open:
  assumes "map_of limits (lower platform) = None
           \<or> (\<exists>periods. map_of limits (lower platform) = Some periods
                 \<and> map_of periods period = None)"
  shows "check_rate_limit limits platform action period now fs = ((ALLOWED, 0, 999999), fs)"
  using assms by (auto simp: check_rate_limit_def)

theorem check_rate_limit_fail_open_witness:
  "check_rate_limit default_limits ''tiktok'' ''post'' HOURLY 0 Map.empty
     = ((ALLOWED, 0, 999999), Map.empty)
   \<and> check_rate_limit default_limits ''twitter'' ''post'' WEEKLY 0 Map.empty
     = ((ALLOWED, 0, 999999), Map.empty)"
proof -
  have a: "map_of default_limits (lower ''tiktok'') = None"
    by (simp add: default_limits_def lower_def lower_chr_def)
  have b: "\<exists>periods. map_of default_limits (lower ''twitter'') = Some periods
             \<and> map_of periods WEEKLY = None"
    by (simp add: default_limits_def lower_def lower_chr_def)
  show ?thesis
    using check_rate_limit_fail_open [of default_limits "''tiktok''" HOURLY "''post''" 0 Map.empty]
      check_rate_limit_fail_open [of default_limits "''twitter''" WEEKLY "''post''" 0 Map.empty]
      a b by simp
qed

text \<open>
  Claim C2. The guard of the posting loop negates the tuple that \<^verbatim>\<open>is_action_allowed\<close>
  returns. A tuple of two elements is true whatever its first element is, so the guard
  is false in every state of the store, for every configuration and platform: the loop
  never skips a platform. That includes the states in which the action is denied, as it
  is for twitter once the daily count has reached 50.
\<close>

theorem posting_guard_never_skips:
  "posting_guard limits platform now fs = False
   \<and> fst (fst (is_action_allowed default_limits ''twitter'' ''post'' True 63839714400000000
         [''rate_limit:twitter:post:daily:2024-01-01'' \<mapsto>
            \<lparr>entry_value = PInt 50, created_at = 0, expires_at = None\<rparr>])) = False"
proof
  show "posting_guard limits platform now fs = False"
    by (simp add: posting_guard_def allowed_obj_def)
  show "fst (fst (is_action_allowed default_limits ''twitter'' ''post'' True 63839714400000000
         [''rate_limit:twitter:post:daily:2024-01-01'' \<mapsto>
            \<lparr>entry_value = PInt 50, created_at = 0, expires_at = None\<rparr>])) = False"
    by code_simp
qed

section \<open>Properties of the key-value store\<close>







text \<open>
  Claim C6 says that every operation retries on the local store when the primary raises
  in the connected state. \<^verbatim>\<open>set\<close>, \<^verbatim>\<open>get\<close> and \<^verbatim>\<open>delete\<close> do; \<^verbatim>\<open>increment\<close> and
  \<^verbatim>\<open>exists\<close> do not: with the key present locally with the value 4, \<^verbatim>\<open>increment\<close>
  returns 0 and changes nothing where the local store would give 5, and \<^verbatim>\<open>exists\<close>
  returns \<^verbatim>\<open>False\<close> where the local store says \<^verbatim>\<open>True\<close>.
\<close>

theorem increment_exists_no_fallback:
  "increment \<lparr>use_redis = True, redis_client = True,
               local = [''k'' \<mapsto> \<lparr>entry_value = PInt 4, created_at = 0, expires_at = None\<rparr>]\<rparr>
       ''k'' 1 Raises 10
     = (0, \<lparr>use_redis = True, redis_client = True,
            local = [''k'' \<mapsto> \<lparr>entry_value = PInt 4, created_at = 0, expires_at = None\<rparr>]\<rparr>)
   \<and> fst (increment_local [''k'' \<mapsto> \<lparr>entry_value = PInt 4, created_at = 0, expires_at = None\<rparr>]
           ''k'' 1 10) = 5
   \<and> exists_kv \<lparr>use_redis = True, redis_client = True,
               local = [''k'' \<mapsto> \<lparr>entry_value = PInt 4, created_at = 0, expires_at = None\<rparr>]\<rparr>
       ''k'' Raises = False
   \<and> exists_local [''k'' \<mapsto> \<lparr>entry_value = PInt 4, created_at = 0, expires_at = None\<rparr>] ''k''
     = True"
  by (simp add: increment_def exists_kv_def exists_local_def increment_local_def get_local_def
      py_or_def set_local_def)


section \<open>Thresholds of the rate limiter\<close>





section \<open>Allowing and executing an action\<close>

text \<open>
  Claim C4. For a configured platform, \<^verbatim>\<open>is_action_allowed\<close> with
  \<^verbatim>\<open>check_all_periods\<close> true returns \<^verbatim>\<open>allowed = False\<close> exactly when
  \<^verbatim>\<open>check_rate_limit\<close> reports \<^verbatim>\<open>LIMIT_EXCEEDED\<close> for at least one of the platform's
  configured periods, whatever the other periods report.
\<close>

theorem is_action_allowed_conjunctive:
  assumes "map_of limits (lower platform) = Some periods"
  shows "fst (fst (is_action_allowed limits platform action True now fs))
           = (\<not> (\<exists>p\<in>set (map fst periods).
                    fst (fst (check_rate_limit limits platform action p now fs)) = LIMIT_EXCEEDED))"
  using assms check_periods_allowed [OF pruned_refl, of limits platform action now "map fst periods"]
  by (simp add: is_action_allowed_def Let_def split_beta)

theorem is_action_allowed_conjunctive_witness:
  "map_of default_limits (lower ''twitter'') = Some [(HOURLY, 5), (DAILY, 50)]
   \<and> fst (fst (check_rate_limit default_limits ''twitter'' ''post'' HOURLY 63839714400000000
         [''rate_limit:twitter:post:daily:2024-01-01'' \<mapsto>
            \<lparr>entry_value = PInt 50, created_at = 0, expires_at = None\<rparr>])) = ALLOWED
   \<and> fst (fst (check_rate_limit default_limits ''twitter'' ''post'' DAILY 63839714400000000
         [''rate_limit:twitter:post:daily:2024-01-01'' \<mapsto>
            \<lparr>entry_value = PInt 50, created_at = 0, expires_at = None\<rparr>])) = LIMIT_EXCEEDED
   \<and> fst (fst (is_action_allowed default_limits ''twitter'' ''post'' True 63839714400000000
         [''rate_limit:twitter:post:daily:2024-01-01'' \<mapsto>
            \<lparr>entry_value = PInt 50, created_at = 0, expires_at = None\<rparr>])) = False"
proof -
  let ?F = "[''rate_limit:twitter:post:daily:2024-01-01'' \<mapsto>
            \<lparr>entry_value = PInt 50, created_at = 0, expires_at = None\<rparr>]"
  have cfg: "map_of default_limits (lower ''twitter'') = Some [(HOURLY, 5), (DAILY, 50)]"
    by code_simp
  have h: "fst (fst (check_rate_limit default_limits ''twitter'' ''post'' HOURLY 63839714400000000
         ?F)) = ALLOWED" by code_simp
  have d: "fst (fst (check_rate_limit default_limits ''twitter'' ''post'' DAILY 63839714400000000
         ?F)) = LIMIT_EXCEEDED" by code_simp
  have "fst (fst (is_action_allowed default_limits ''twitter'' ''post'' True 63839714400000000 ?F))
          = False"
    using is_action_allowed_conjunctive [OF cfg, of "''post''" 63839714400000000 ?F] d by simp
  with cfg h d show ?thesis by blast
qed




section \<open>Truncation by the sanitizer\<close>

text \<open>
  Claim C10 says that the text \<^verbatim>\<open>sanitize_text\<close> returns is no longer than
  \<^verbatim>\<open>max_length\<close>. The text \<^verbatim>\<open>abcdef\<close> holds nothing that the library steps change,
  so they are the identity on it; with \<^verbatim>\<open>max_length = 2\<close> the slice \<^verbatim>\<open>text[:-1]\<close>
  drops one character, the ellipsis adds three, and the result has eight characters.
\<close>

theorem sanitize_text_short_limit:
  "sanitize_text (\<lambda>t. t) (\<lambda>pattern repl t. t) ''abcdef'' (Some 2) = ''abcde...''
   \<and> int (length (sanitize_text (\<lambda>t. t) (\<lambda>pattern repl t. t) ''abcdef'' (Some 2))) > 2"
  by code_simp


section \<open>The weekly bucket\<close>

text \<open>
  Claim C5, as stated: the weekly key embeds the ISO week identifier. On Monday
  2024-01-01 the key ends in \<^verbatim>\<open>2024-W00\<close>, the week number that \<^verbatim>\<open>%U\<close> gives, while
  the ISO week is \<^verbatim>\<open>2024-W01\<close>, which does not occur in the key.
\<close>

theorem weekly_key_not_iso_counterexample:
  "get_time_window_key ''twitter'' WEEKLY ''post'' 63839664000000005
     = ''rate_limit:twitter:post:weekly:2024-W00''
   \<and> spec_iso_week_id 63839664000000005 = ''2024-W01''
   \<and> \<not> contains (spec_iso_week_id 63839664000000005)
         (get_time_window_key ''twitter'' WEEKLY ''post'' 63839664000000005)"
  by code_simp

text \<open>
  Claim C5, amended. For every instant a \<^verbatim>\<open>datetime\<close> can hold, the weekly key embeds
  the year and the \<^verbatim>\<open>%U\<close> week number of the Monday of that instant's week; two
  instants give the same weekly key exactly when they lie in the same week from Monday to
  Sunday.
\<close>

theorem weekly_key_same_week:
  assumes "valid_datetime t1" and "valid_datetime t2"
  shows "get_time_window_key platform WEEKLY action t1
           = ''rate_limit:'' @ platform @ '':'' @ action @ '':weekly:''
               @ pad4 (year_of (minus_days t1 (weekday t1))) @ ''-W''
               @ pad2 (week_U (minus_days t1 (weekday t1)))
         \<and> ((get_time_window_key platform WEEKLY action t1
               = get_time_window_key platform WEEKLY action t2) = same_week t1 t2)"
proof
  show "get_time_window_key platform WEEKLY action t1
           = ''rate_limit:'' @ platform @ '':'' @ action @ '':weekly:''
               @ pad4 (year_of (minus_days t1 (weekday t1))) @ ''-W''
               @ pad2 (week_U (minus_days t1 (weekday t1)))"
    by (simp add: get_time_window_key_def time_key_def Let_def fmt_Y_def fmt_U_def)
  let ?m1 = "minus_days t1 (weekday t1)" and ?m2 = "minus_days t2 (weekday t2)"
  have sw: "same_week t1 t2 = (toordinal ?m1 = toordinal ?m2)"
    by (simp add: same_week_def monday_ordinal)
  have y1: "0 \<le> year_of ?m1" "year_of ?m1 < 10000"
    using year_range [OF monday_valid [OF assms(1)]] by (simp_all add: year_of_def)
  have y2: "0 \<le> year_of ?m2" "year_of ?m2 < 10000"
    using year_range [OF monday_valid [OF assms(2)]] by (simp_all add: year_of_def)
  show "(get_time_window_key platform WEEKLY action t1
               = get_time_window_key platform WEEKLY action t2) = same_week t1 t2"
  proof
    assume "get_time_window_key platform WEEKLY action t1
               = get_time_window_key platform WEEKLY action t2"
    then have p: "pad4 (year_of ?m1) = pad4 (year_of ?m2)" "pad2 (week_U ?m1) = pad2 (week_U ?m2)"
      by (simp_all add: weekly_key_parts)
    have "year_of ?m1 = year_of ?m2" using y1 y2 p(1) by (rule pad4_inj [OF _ _ _ _])
    moreover have "week_U ?m1 = week_U ?m2"
      using week_U_range [of ?m1] week_U_range [of ?m2] p(2) pad2_inj by blast
    ultimately have "toordinal ?m1 = toordinal ?m2"
      using monday_week_inj [OF monday_weekday monday_weekday] by blast
    then show "same_week t1 t2" by (simp add: sw)
  next
    assume "same_week t1 t2"
    then have "toordinal ?m1 = toordinal ?m2" by (simp add: sw)
    from ordinal_determines [OF this]
    show "get_time_window_key platform WEEKLY action t1
               = get_time_window_key platform WEEKLY action t2"
      by (simp add: weekly_key_parts)
  qed
qed

theorem weekly_key_same_week_witness:
  "valid_datetime 63839664000000005 \<and> valid_datetime 63840268799000000
   \<and> valid_datetime 63840268800000000
   \<and> same_week 63839664000000005 63840268799000000
   \<and> get_time_window_key ''twitter'' WEEKLY ''post'' 63839664000000005
       = get_time_window_key ''twitter'' WEEKLY ''post'' 63840268799000000
   \<and> \<not> same_week 63839664000000005 63840268800000000
   \<and> get_time_window_key ''twitter'' WEEKLY ''post'' 63839664000000005
       \<noteq> get_time_window_key ''twitter'' WEEKLY ''post'' 63840268800000000"
proof -
  have v1: "valid_datetime 63839664000000005" by code_simp
  have v2: "valid_datetime 63840268799000000" by code_simp
  have v3: "valid_datetime 63840268800000000" by code_simp
  have s12: "same_week 63839664000000005 63840268799000000" by code_simp
  have s13: "\<not> same_week 63839664000000005 63840268800000000" by code_simp
  from weekly_key_same_week [OF v1 v2, of "''twitter''" "''post''"] s12
  have k12: "get_time_window_key ''twitter'' WEEKLY ''post'' 63839664000000005
       = get_time_window_key ''twitter'' WEEKLY ''post'' 63840268799000000" by blast
  from weekly_key_same_week [OF v1 v3, of "''twitter''" "''post''"] s13
  have k13: "get_time_window_key ''twitter'' WEEKLY ''post'' 63839664000000005
       \<noteq> get_time_window_key ''twitter'' WEEKLY ''post'' 63840268800000000" by blast
  from v1 v2 v3 s12 k12 s13 k13 show ?thesis by blast
qed

end
